theory Spec2Isabelle
  imports Main "HOL-Library.AList" "HOL-Library.Sublist"
begin

section \<open>Envelope values and wire documents\<close>

text \<open>
  The fields \<open>request\<close> and \<open>params\<close> of an envelope are dynamically typed. \<open>jsval\<close>
  covers the run-time values the codecs can tell apart: the JSON-style values and the
  \<open>Map\<close> object that the class uses for \<open>params\<close>. Numbers are integers here;
  an object or a Map is the list of its entries in insertion order.
\<close>

datatype jsval =
    VNull
  | VBool bool
  | VNum int
  | VStr string
  | VArr "jsval list"
  | VObj "(string \<times> jsval) list"
  | VMap "(string \<times> jsval) list"

text \<open>
  A frame on the wire is represented by the document tree it denotes, not by its
  characters or bytes.
\<close>

datatype doc =
    DNull
  | DBool bool
  | DNum int
  | DStr string
  | DArr "doc list"
  | DObj "(string \<times> doc) list"

datatype frame = TextFrame doc | BinaryFrame doc

text \<open>
  \<open>JSON.stringify\<close> (the ECMAScript built-in) writes the own enumerable properties of
  an object. A \<open>Map\<close> keeps its entries in an internal slot and has no such property,
  so it is written as the empty object \<open>{}\<close>.
\<close>

primrec JSON_stringify :: "jsval \<Rightarrow> doc" where
  "JSON_stringify VNull = DNull"
| "JSON_stringify (VBool b) = DBool b"
| "JSON_stringify (VNum n) = DNum n"
| "JSON_stringify (VStr s) = DStr s"
| "JSON_stringify (VArr vs) = DArr (map JSON_stringify vs)"
| "JSON_stringify (VObj fs) = DObj (map (map_prod id JSON_stringify) fs)"
| "JSON_stringify (VMap es) = DObj []"

text \<open>
  \<open>BSON.serialize\<close> (the bson package) writes a plain object and a \<open>Map\<close> alike as
  an embedded document of their entries.
\<close>

primrec BSON_serialize :: "jsval \<Rightarrow> doc" where
  "BSON_serialize VNull = DNull"
| "BSON_serialize (VBool b) = DBool b"
| "BSON_serialize (VNum n) = DNum n"
| "BSON_serialize (VStr s) = DStr s"
| "BSON_serialize (VArr vs) = DArr (map BSON_serialize vs)"
| "BSON_serialize (VObj fs) = DObj (map (map_prod id BSON_serialize) fs)"
| "BSON_serialize (VMap es) = DObj (map (map_prod id BSON_serialize) es)"

text \<open>
  \<open>JSON.parse\<close> and \<open>BSON.deserialize\<close> build plain values: every document becomes
  a plain object, never a \<open>Map\<close>.
\<close>

primrec parse_doc :: "doc \<Rightarrow> jsval" where
  "parse_doc DNull = VNull"
| "parse_doc (DBool b) = VBool b"
| "parse_doc (DNum n) = VNum n"
| "parse_doc (DStr s) = VStr s"
| "parse_doc (DArr ds) = VArr (map parse_doc ds)"
| "parse_doc (DObj fs) = VObj (map (map_prod id parse_doc) fs)"

section \<open>APIResponse\<close>

text \<open>
  The class \<open>APIResponse\<close>; the constructor of the datatype takes the fields in the
  order of the class constructor's parameters.
\<close>

datatype APIResponse =
  APIResponse (UUID: string) (status: int) (message: string) (key: string)
    (request: jsval) (params: jsval)

text \<open>\<open>new APIResponse()\<close>: every parameter at its default.\<close>

definition new_APIResponse :: APIResponse where
  "new_APIResponse = APIResponse '''' 200 '''' '''' (VStr '''') (VMap [])"

definition toJsonStr :: "APIResponse \<Rightarrow> doc" where
  "toJsonStr this =
     DObj [(''UUID'', DStr (UUID this)),
           (''status'', DNum (status this)),
           (''message'', DStr (message this)),
           (''key'', DStr (key this)),
           (''request'', JSON_stringify (request this)),
           (''params'', JSON_stringify (params this))]"

definition toBsonBin :: "APIResponse \<Rightarrow> doc" where
  "toBsonBin this =
     DObj [(''UUID'', DStr (UUID this)),
           (''status'', DNum (status this)),
           (''message'', DStr (message this)),
           (''key'', DStr (key this)),
           (''request'', BSON_serialize (request this)),
           (''params'', BSON_serialize (params this))]"

text \<open>
  \<open>Object.assign(target, data)\<close> copies every property of \<open>data\<close> over the target's
  property of that name and leaves the other properties of the target as they are. The
  model is typed: where \<open>data\<close> carries a value that the declared type of the field
  excludes (a number for \<open>UUID\<close>, say), the result is \<open>None\<close>, which stands for an object
  that is no \<open>APIResponse\<close> of the declared type. A source that is no object has no
  property named like a field.
\<close>

definition string_property :: "(string \<times> jsval) list \<Rightarrow> string \<Rightarrow> string \<Rightarrow> string option" where
  "string_property fs n d =
     (case map_of fs n of None \<Rightarrow> Some d | Some (VStr s) \<Rightarrow> Some s | Some _ \<Rightarrow> None)"

definition number_property :: "(string \<times> jsval) list \<Rightarrow> string \<Rightarrow> int \<Rightarrow> int option" where
  "number_property fs n d =
     (case map_of fs n of None \<Rightarrow> Some d | Some (VNum i) \<Rightarrow> Some i | Some _ \<Rightarrow> None)"

definition any_property :: "(string \<times> jsval) list \<Rightarrow> string \<Rightarrow> jsval \<Rightarrow> jsval" where
  "any_property fs n d = (case map_of fs n of None \<Rightarrow> d | Some v \<Rightarrow> v)"

fun Object_assign :: "APIResponse \<Rightarrow> jsval \<Rightarrow> APIResponse option" where
  "Object_assign target (VObj fs) =
     (case string_property fs ''UUID'' (UUID target) of None \<Rightarrow> None | Some u \<Rightarrow>
      case number_property fs ''status'' (status target) of None \<Rightarrow> None | Some s \<Rightarrow>
      case string_property fs ''message'' (message target) of None \<Rightarrow> None | Some m \<Rightarrow>
      case string_property fs ''key'' (key target) of None \<Rightarrow> None | Some k \<Rightarrow>
        Some (APIResponse u s m k
               (any_property fs ''request'' (request target))
               (any_property fs ''params'' (params target))))"
| "Object_assign target _ = Some target"

definition handleStr :: "doc \<Rightarrow> APIResponse option" where
  "handleStr msg = Object_assign new_APIResponse (parse_doc msg)"

definition handleBin :: "doc \<Rightarrow> APIResponse option" where
  "handleBin msg = Object_assign new_APIResponse (parse_doc msg)"

section \<open>Exceptions\<close>

text \<open>
  The exceptions a method of the client can end with: the error that \<open>send\<close> of the
  ws package throws while the socket is still connecting
  (\<open>WebSocket is not open: readyState 0 (CONNECTING)\<close>), and the \<open>ReferenceError\<close> of
  evaluating an identifier that nothing declares. A method that can throw returns the
  exception, if any, beside the state it leaves behind: what it assigned before the
  \<open>throw\<close> stays assigned.
\<close>

datatype error = NotOpen | ReferenceError string

section \<open>RPCServer and RPCNode\<close>

text \<open>
  A handler is the interface \<open>RPCServer\<close> with its one method \<open>handle\<close>. Handlers are
  code of the caller; the model takes a handler as a function of the request that does
  not throw and does not call back into the client.
\<close>

type_synonym RPCServer = "APIResponse \<Rightarrow> APIResponse option"

text \<open>
  A node holds its children in a \<open>Map\<close>: a list of entries in insertion order, read
  with \<open>map_of\<close>, written with \<open>AList.update\<close> (a new key goes to the end, a known key
  keeps its place) and \<open>AList.delete\<close>.
\<close>

datatype RPCNode =
  RPCNode (children: "(string \<times> RPCNode) list") (name: string) (rpcServer: "RPCServer option")

definition new_RPCNode :: "string \<Rightarrow> RPCServer option \<Rightarrow> RPCNode" where
  "new_RPCNode n srv = RPCNode [] n srv"

text \<open>
  \<open>RPCNode.create(key)\<close>. The class \<open>RPCNode\<close> that the client imports from \<open>./type\<close>
  has the body \<open>return new RPCRouterNode(key, null)\<close>, and nothing declares
  \<open>RPCRouterNode\<close>: the call throws a \<open>ReferenceError\<close>. The single-file copy of the
  source has \<open>return new RPCNode(key, null)\<close> in the same place; it is the only
  difference between the two copies and is kept as \<open>create_part_000\<close>.
\<close>

definition create :: "string \<Rightarrow> error + RPCNode" where
  "create k = Inl (ReferenceError ''RPCRouterNode'')"

definition create_part_000 :: "string \<Rightarrow> error + RPCNode" where
  "create_part_000 k = Inr (new_RPCNode k None)"

section \<open>TimedCache\<close>

record 'v CacheItem =
  item_value :: 'v
  expiry :: int

text \<open>
  The callback \<open>onClear\<close> and the timer belong to the client that builds the cache;
  \<open>Date.now()\<close> is the argument \<open>now\<close> of every operation that reads the clock.
\<close>

record ('k, 'v) TimedCache =
  ttl :: int
  interval :: int
  cache :: "('k \<times> 'v CacheItem) list"

definition new_TimedCache :: "int \<Rightarrow> int \<Rightarrow> ('k, 'v) TimedCache" where
  "new_TimedCache t i = \<lparr>ttl = t, interval = i, cache = []\<rparr>"

definition TimedCache_set :: "'k \<Rightarrow> 'v \<Rightarrow> int \<Rightarrow> ('k, 'v) TimedCache \<Rightarrow> ('k, 'v) TimedCache" where
  "TimedCache_set k v now tc =
     tc\<lparr>cache := AList.update k \<lparr>item_value = v, expiry = now + ttl tc\<rparr> (cache tc)\<rparr>"

definition TimedCache_get :: "'k \<Rightarrow> int \<Rightarrow> ('k, 'v) TimedCache \<Rightarrow> 'v option \<times> ('k, 'v) TimedCache" where
  "TimedCache_get k now tc =
     (case map_of (cache tc) k of
        None \<Rightarrow> (None, tc\<lparr>cache := AList.delete k (cache tc)\<rparr>)
      | Some item \<Rightarrow>
          if expiry item > now then (Some (item_value item), tc)
          else (None, tc\<lparr>cache := AList.delete k (cache tc)\<rparr>))"

definition TimedCache_remove :: "'k \<Rightarrow> ('k, 'v) TimedCache \<Rightarrow> ('k, 'v) TimedCache" where
  "TimedCache_remove k tc = tc\<lparr>cache := AList.delete k (cache tc)\<rparr>"

section \<open>The socket\<close>

text \<open>
  The \<open>WebSocket\<close> of the ws package, as far as the client uses it: its \<open>readyState\<close>
  and the frames it has put on the wire. \<open>send\<close> throws while the socket is connecting,
  transmits while it is open and discards the frame once the socket is closing or
  closed; \<open>close\<close> moves a socket that is not yet closed to \<open>CLOSING\<close>.
\<close>

datatype ReadyState = CONNECTING | OPEN | CLOSING | CLOSED

record WebSocket =
  readyState :: ReadyState
  transmitted :: "frame list"

definition WebSocket_send :: "frame \<Rightarrow> WebSocket \<Rightarrow> error option \<times> WebSocket" where
  "WebSocket_send f ws =
     (case readyState ws of
        CONNECTING \<Rightarrow> (Some NotOpen, ws)
      | OPEN \<Rightarrow> (None, ws\<lparr>transmitted := transmitted ws @ [f]\<rparr>)
      | CLOSING \<Rightarrow> (None, ws)
      | CLOSED \<Rightarrow> (None, ws))"

definition WebSocket_close :: "WebSocket \<Rightarrow> WebSocket" where
  "WebSocket_close ws =
     (case readyState ws of CLOSED \<Rightarrow> ws | _ \<Rightarrow> ws\<lparr>readyState := CLOSING\<rparr>)"

text \<open>
  \<open>websocket_client.OPEN\<close> is the ready-state code for "open" that the ws package
  defines on every socket, the number 1; the state the socket is in is its
  \<open>readyState\<close>. A number is truthy when it is not 0.
\<close>

definition WebSocket_OPEN :: nat where
  "WebSocket_OPEN = 1"

definition truthy :: "nat \<Rightarrow> bool" where
  "truthy n = (n \<noteq> 0)"

section \<open>simple_rpc_client\<close>

text \<open>
  What the client does to the outside is kept as a trace of its calls, in order:
  \<^item> \<open>WsNew u\<close>: \<open>new WebSocket(encodeURI(u))\<close>;
  \<^item> \<open>WsSend f\<close>: \<open>websocket_client.send(f)\<close> is called (whatever the socket then does);
  \<^item> \<open>WsClose\<close>: \<open>websocket_client.close()\<close>;
  \<^item> \<open>ConsoleError s\<close>: \<open>console.error(s)\<close>;
  \<^item> \<open>Called h r\<close>: the handler \<open>h\<close> is invoked with the request \<open>r\<close>.
\<close>

datatype event =
    WsNew string
  | WsSend frame
  | WsClose
  | ConsoleError string
  | Called RPCServer APIResponse

record simple_rpc_client =
  websocket_client :: WebSocket
  status :: bool
  root :: RPCNode
  server_cache :: "(string, RPCServer) TimedCache"
  bin_first :: bool
  effects :: "event list"

definition console_error :: "string \<Rightarrow> simple_rpc_client \<Rightarrow> simple_rpc_client" where
  "console_error s c = c\<lparr>effects := effects c @ [ConsoleError s]\<rparr>"

text \<open>The template literal that the constructor passes to \<open>encodeURI\<close>.\<close>

definition websocket_address :: "bool \<Rightarrow> string \<Rightarrow> string \<Rightarrow> string" where
  "websocket_address ssl url token =
     (if ssl then ''ws'' else ''wss'') @ ''://'' @ url @
     (if length token = 0 then ''?token='' @ token else '''')"

text \<open>
  The constructor, in an environment that has the timer the cache asks for
  (\<open>window.setInterval\<close>). The new socket is connecting.
\<close>

definition constructor :: "bool \<Rightarrow> string \<Rightarrow> string \<Rightarrow> bool \<Rightarrow> simple_rpc_client" where
  "constructor ssl url token bin =
     \<lparr>websocket_client = \<lparr>readyState = CONNECTING, transmitted = []\<rparr>,
      status = False,
      root = new_RPCNode '''' None,
      server_cache = new_TimedCache 120000 60000,
      bin_first = bin,
      effects = [WsNew (websocket_address ssl url token)]\<rparr>"

text \<open>The listener for the socket's \<open>open\<close> event.\<close>

definition on_open :: "simple_rpc_client \<Rightarrow> simple_rpc_client" where
  "on_open c = c\<lparr>status := True\<rparr>"

text \<open>
  The handshake of a connecting socket completes: the socket becomes open and emits
  \<open>open\<close>. This is a step of the environment, not a method of the client.
\<close>

definition socket_opens :: "simple_rpc_client \<Rightarrow> simple_rpc_client" where
  "socket_opens c =
     (case readyState (websocket_client c) of
        CONNECTING \<Rightarrow> on_open (c\<lparr>websocket_client := (websocket_client c)\<lparr>readyState := OPEN\<rparr>\<rparr>)
      | _ \<Rightarrow> c)"

definition close :: "simple_rpc_client \<Rightarrow> simple_rpc_client" where
  "close c =
     c\<lparr>websocket_client := WebSocket_close (websocket_client c),
       effects := effects c @ [WsClose]\<rparr>"

definition getStatus :: "simple_rpc_client \<Rightarrow> bool" where
  "getStatus c = status c"

text \<open>\<open>websocket_client.send(f)\<close> as a step of the client: the call is recorded.\<close>

definition websocket_client_send ::
  "frame \<Rightarrow> simple_rpc_client \<Rightarrow> error option \<times> simple_rpc_client" where
  "websocket_client_send f c =
     (case WebSocket_send f (websocket_client c) of
        (r, ws) \<Rightarrow> (r, c\<lparr>websocket_client := ws, effects := effects c @ [WsSend f]\<rparr>))"

text \<open>\<open>useBin\<close> is \<open>None\<close> when the caller leaves the parameter out.\<close>

definition send ::
  "APIResponse \<Rightarrow> bool option \<Rightarrow> simple_rpc_client \<Rightarrow> error option \<times> simple_rpc_client" where
  "send msg useBin c =
     (let b = (case useBin of None \<Rightarrow> bin_first c | Some b \<Rightarrow> b) in
      if truthy WebSocket_OPEN then
        (if b then websocket_client_send (BinaryFrame (toBsonBin msg)) c
         else websocket_client_send (TextFrame (toJsonStr msg)) c)
      else (None, c))"

definition addSendCallBack :: "string \<Rightarrow> RPCServer \<Rightarrow> int \<Rightarrow> simple_rpc_client \<Rightarrow> simple_rpc_client" where
  "addSendCallBack uuid server now c =
     c\<lparr>server_cache := TimedCache_set uuid server now (server_cache c)\<rparr>"

definition sendAndCallBack ::
  "APIResponse \<Rightarrow> bool option \<Rightarrow> RPCServer \<Rightarrow> int \<Rightarrow> simple_rpc_client \<Rightarrow>
   error option \<times> simple_rpc_client" where
  "sendAndCallBack msg useBin server now c =
     send msg useBin (addSendCallBack (UUID msg) server now c)"

text \<open>\<open>server.handle(request)\<close>: the call is recorded, the handler's result returned.\<close>

definition invoke ::
  "RPCServer \<Rightarrow> APIResponse \<Rightarrow> simple_rpc_client \<Rightarrow> APIResponse option \<times> simple_rpc_client" where
  "invoke server req c = (server req, c\<lparr>effects := effects c @ [Called server req]\<rparr>)"

text \<open>The callback the constructor gives to the cache as \<open>onClear\<close>.\<close>

definition onClear ::
  "string \<Rightarrow> RPCServer \<Rightarrow> simple_rpc_client \<Rightarrow> error option \<times> simple_rpc_client" where
  "onClear k v c =
     (let req = APIResponse k 408 ''Request timeout'' '''' (VStr '''') (VMap []) in
      case invoke v req c of
        (None, c1) \<Rightarrow> (None, c1)
      | (Some re, c1) \<Rightarrow> send re None c1)"

text \<open>
  \<open>TimedCache.clearExpired\<close>, run by the timer on the client's cache: the loop visits
  the entries in insertion order; for an expired one it calls \<open>onClear\<close> and then
  deletes the key. Nothing catches an exception of \<open>onClear\<close>: it ends the loop before
  the \<open>delete\<close> of that entry and before the later entries are visited.
\<close>

fun clearExpired_loop ::
  "int \<Rightarrow> (string \<times> RPCServer CacheItem) list \<Rightarrow> simple_rpc_client \<Rightarrow>
   error option \<times> simple_rpc_client" where
  "clearExpired_loop now [] c = (None, c)"
| "clearExpired_loop now (e # es) c =
     (if expiry (snd e) \<le> now then
        (case onClear (fst e) (item_value (snd e)) c of
           (Some x, c1) \<Rightarrow> (Some x, c1)
         | (None, c1) \<Rightarrow>
             clearExpired_loop now es
               (c1\<lparr>server_cache := TimedCache_remove (fst e) (server_cache c1)\<rparr>))
      else clearExpired_loop now es c)"

definition clearExpired :: "int \<Rightarrow> simple_rpc_client \<Rightarrow> error option \<times> simple_rpc_client" where
  "clearExpired now c = clearExpired_loop now (cache (server_cache c)) c"

text \<open>
  The handler that the constructor binds to the root node. It is the only handler that
  acts on the client itself, so it is a function of the client here and not a value of
  \<open>RPCServer\<close>; \<open>root\<close> is private and neither \<open>addNode\<close> nor \<open>removeNode\<close> rebinds the
  root's handler, so a request with the empty key always reaches it. The result is the
  exception it ends with (\<open>Inl\<close>) or the value it returns (\<open>Inr\<close>, with \<open>None\<close> for
  \<open>null\<close>).
\<close>

definition root_rpcServer_handle ::
  "APIResponse \<Rightarrow> int \<Rightarrow> simple_rpc_client \<Rightarrow>
   (error + APIResponse option) \<times> simple_rpc_client" where
  "root_rpcServer_handle req now c =
     (case TimedCache_get (UUID req) now (server_cache c) of
        (None, tc) \<Rightarrow> (Inr None, c\<lparr>server_cache := tc\<rparr>)
      | (Some server, tc) \<Rightarrow>
          (let c1 = c\<lparr>server_cache := TimedCache_remove (UUID req) tc\<rparr> in
           case invoke server req c1 of
             (None, c2) \<Rightarrow> (Inr None, c2)
           | (Some re, c2) \<Rightarrow>
               (case send re None c2 of
                  (Some x, c3) \<Rightarrow> (Inl x, c3)
                | (None, c3) \<Rightarrow> (Inr None, c3))))"

text \<open>\<open>key.split('.')\<close>: the pieces between the dots; never the empty list.\<close>

fun split_dot :: "string \<Rightarrow> string list" where
  "split_dot [] = [[]]"
| "split_dot (c # cs) =
     (if c = CHR ''.'' then [] # split_dot cs
      else (case split_dot cs of [] \<Rightarrow> [[c]] | w # ws \<Rightarrow> (c # w) # ws))"

text \<open>The loop of \<open>handle\<close>: \<open>None\<close> when a child is missing, else the node reached.\<close>

fun handle_loop :: "RPCNode \<Rightarrow> string list \<Rightarrow> RPCNode option" where
  "handle_loop node [] = Some node"
| "handle_loop node (k # ks) =
     (case map_of (children node) k of
        None \<Rightarrow> None
      | Some child \<Rightarrow> handle_loop child ks)"

definition handle ::
  "APIResponse \<Rightarrow> int \<Rightarrow> simple_rpc_client \<Rightarrow> error option \<times> simple_rpc_client" where
  "handle data now c =
     (if key data = '''' then
        (case root_rpcServer_handle data now c of
           (Inl x, c1) \<Rightarrow> (Some x, c1)
         | (Inr re, c1) \<Rightarrow> (None, c1))
      else
        (case handle_loop (root c) (split_dot (key data)) of
           None \<Rightarrow> (None, console_error (''SimpleRPC: No such node '' @ key data) c)
         | Some node \<Rightarrow>
             (case rpcServer node of
                None \<Rightarrow> (None, c)
              | Some server \<Rightarrow>
                  (case invoke server data c of
                     (None, c1) \<Rightarrow> (None, c1)
                   | (Some re, c1) \<Rightarrow> send re None c1))))"

text \<open>
  The loop of \<open>addNode\<close> and the assignment after it: the node objects are updated in
  place in the source, the tree is rebuilt along the path here. \<open>mk\<close> is
  \<open>RPCNode.create\<close>; when it throws at a missing child, the loop ends there and the
  nodes are as the loop has left them.
\<close>

fun addNode_loop ::
  "(string \<Rightarrow> error + RPCNode) \<Rightarrow> string list \<Rightarrow> RPCServer \<Rightarrow> RPCNode \<Rightarrow>
   error option \<times> RPCNode" where
  "addNode_loop mk [] server node = (None, RPCNode (children node) (name node) (Some server))"
| "addNode_loop mk (k # ks) server node =
     (case map_of (children node) k of
        None \<Rightarrow>
          (case mk k of
             Inl x \<Rightarrow> (Some x, node)
           | Inr n \<Rightarrow>
               (case addNode_loop mk ks server n of
                  (r, child') \<Rightarrow>
                    (r, RPCNode (AList.update k child' (children node))
                          (name node) (rpcServer node))))
      | Some child \<Rightarrow>
          (case addNode_loop mk ks server child of
             (r, child') \<Rightarrow>
               (r, RPCNode (AList.update k child' (children node))
                     (name node) (rpcServer node))))"

definition addNode_with ::
  "(string \<Rightarrow> error + RPCNode) \<Rightarrow> string \<Rightarrow> RPCServer option \<Rightarrow> simple_rpc_client \<Rightarrow>
   error option \<times> simple_rpc_client" where
  "addNode_with mk k server c =
     (if k = '''' then (None, console_error ''SimpleRPC: key cannot be empty'' c)
      else
        (case server of
           None \<Rightarrow> (None, console_error ''SimpleRPC: server cannot be empty'' c)
         | Some s \<Rightarrow>
             (case addNode_loop mk (split_dot k) s (root c) of
                (r, t) \<Rightarrow> (r, c\<lparr>root := t\<rparr>))))"

text \<open>
  \<open>addNode\<close> of the client that imports \<open>RPCNode\<close> from \<open>./type\<close>, and \<open>addNode\<close> of the
  single-file copy.
\<close>

definition addNode ::
  "string \<Rightarrow> RPCServer option \<Rightarrow> simple_rpc_client \<Rightarrow> error option \<times> simple_rpc_client" where
  "addNode k server c = addNode_with create k server c"

definition addNode_part_000 ::
  "string \<Rightarrow> RPCServer option \<Rightarrow> simple_rpc_client \<Rightarrow> error option \<times> simple_rpc_client" where
  "addNode_part_000 k server c = addNode_with create_part_000 k server c"

text \<open>
  The loop of \<open>removeNode\<close> and the \<open>delete\<close> after it: \<open>None\<close> is the early return at
  a missing child. With no key at all the loop body would not run and the \<open>delete\<close>
  would be of the key \<open>''\<close> at the root.
\<close>

fun removeNode_loop :: "RPCNode \<Rightarrow> string list \<Rightarrow> RPCNode option" where
  "removeNode_loop node [] =
     Some (RPCNode (AList.delete '''' (children node)) (name node) (rpcServer node))"
| "removeNode_loop node [k] =
     (case map_of (children node) k of
        None \<Rightarrow> None
      | Some child \<Rightarrow>
          Some (RPCNode (AList.delete k (children node)) (name node) (rpcServer node)))"
| "removeNode_loop node (k # ks) =
     (case map_of (children node) k of
        None \<Rightarrow> None
      | Some child \<Rightarrow>
          (case removeNode_loop child ks of
             None \<Rightarrow> None
           | Some child' \<Rightarrow>
               Some (RPCNode (AList.update k child' (children node))
                      (name node) (rpcServer node))))"

definition removeNode :: "string \<Rightarrow> simple_rpc_client \<Rightarrow> simple_rpc_client" where
  "removeNode k c =
     (if k = '''' then console_error ''SimpleRPC: key cannot be empty'' c
      else
        (case removeNode_loop (root c) (split_dot k) of
           None \<Rightarrow> c
         | Some r \<Rightarrow> c\<lparr>root := r\<rparr>))"

section \<open>Observations\<close>

text \<open>
  The statements below read the model through a few functions of their own. None of
  them is code of the client.

  \<open>lookup r k\<close> is the handler that \<open>handle\<close> resolves the non-empty key \<open>k\<close> to
  in the trie \<open>r\<close>: the loop of \<open>handle\<close> followed by \<open>node.rpcServer\<close>. It is
  \<open>None\<close> when a segment is missing and when the node reached has no handler.
\<close>

definition lookup :: "RPCNode \<Rightarrow> string \<Rightarrow> RPCServer option" where
  "lookup r k = (case handle_loop r (split_dot k) of None \<Rightarrow> None | Some node \<Rightarrow> rpcServer node)"

text \<open>
  \<open>frame_of b msg\<close> is the frame that \<open>send\<close> encodes for \<open>msg\<close> when the binary
  flag is \<open>b\<close>.
\<close>

definition frame_of :: "bool \<Rightarrow> APIResponse \<Rightarrow> frame" where
  "frame_of b msg = (if b then BinaryFrame (toBsonBin msg) else TextFrame (toJsonStr msg))"

text \<open>
  \<open>delivery b server req\<close> is the trace of one handler invocation whose result, when
  there is one, goes to \<open>send\<close> with the parameter \<open>useBin\<close> left out.
\<close>

definition delivery :: "bool \<Rightarrow> RPCServer \<Rightarrow> APIResponse \<Rightarrow> event list" where
  "delivery b server req =
     Called server req # (case server req of None \<Rightarrow> [] | Some re \<Rightarrow> [WsSend (frame_of b re)])"

text \<open>
  \<open>sends\<close> keeps the frames handed to the socket, \<open>calls\<close> the handler invocations
  of a trace.
\<close>

definition sends :: "event list \<Rightarrow> frame list" where
  "sends es = concat (map (\<lambda>e. case e of WsSend f \<Rightarrow> [f] | _ \<Rightarrow> []) es)"

definition calls :: "event list \<Rightarrow> (RPCServer \<times> APIResponse) list" where
  "calls es = concat (map (\<lambda>e. case e of Called h r \<Rightarrow> [(h, r)] | _ \<Rightarrow> []) es)"

text \<open>
  \<open>sweep_effects now b e\<close> is what the sweep at time \<open>now\<close> does to the outside for
  the cache entry \<open>e\<close>.
\<close>

definition sweep_effects :: "int \<Rightarrow> bool \<Rightarrow> string \<times> RPCServer CacheItem \<Rightarrow> event list" where
  "sweep_effects now b e =
     (if expiry (snd e) \<le> now then
        delivery b (item_value (snd e))
          (APIResponse (fst e) 408 ''Request timeout'' '''' (VStr '''') (VMap []))
      else [])"

section \<open>Keys and the trie\<close>

lemma split_dot_not_Nil: "split_dot s \<noteq> []"
  by (induction s) (auto split: list.splits)

lemma split_dot_inj: "split_dot s = split_dot t \<Longrightarrow> s = t"
proof (induction s arbitrary: t)
  case Nil
  show ?case
  proof (cases t)
    case Nil
    then show ?thesis by simp
  next
    case (Cons d ds)
    with Nil split_dot_not_Nil [of ds] show ?thesis
      by (auto split: if_splits list.splits)
  qed
next
  case (Cons c cs)
  show ?case
  proof (cases t)
    case Nil
    with Cons.prems split_dot_not_Nil [of cs] show ?thesis
      by (auto split: if_splits list.splits)
  next
    case t: (Cons d ds)
    obtain w ws where cs: "split_dot cs = w # ws"
      using split_dot_not_Nil [of cs] by (cases "split_dot cs") auto
    obtain v vs where ds: "split_dot ds = v # vs"
      using split_dot_not_Nil [of ds] by (cases "split_dot ds") auto
    from Cons.prems t cs ds have "c = d \<and> split_dot cs = split_dot ds"
      by (auto split: if_splits)
    with Cons.IH t show ?thesis by simp
  qed
qed

lemma lookup_bind: "lookup r k = Option.bind (handle_loop r (split_dot k)) rpcServer"
  by (simp add: lookup_def split: option.splits)

lemma handle_loop_prefix_None:
  "handle_loop t ks = None \<Longrightarrow> prefix ks ps \<Longrightarrow> handle_loop t ps = None"
proof (induction t ks arbitrary: ps rule: handle_loop.induct)
  case (1 node)
  then show ?case by simp
next
  case (2 node k ks)
  from \<open>prefix (k # ks) ps\<close> obtain ps' where ps: "ps = k # ps'" and pre: "prefix ks ps'"
    by (auto simp: prefix_def)
  show ?case
  proof (cases "map_of (children node) k")
    case None
    with ps show ?thesis by simp
  next
    case (Some child)
    with "2.prems"(1) have "handle_loop child ks = None" by simp
    from "2.IH" [OF Some this pre] Some ps show ?thesis by simp
  qed
qed

lemma removeNode_loop_prefix:
  "removeNode_loop t ks = Some t' \<Longrightarrow> ks \<noteq> [] \<Longrightarrow> prefix ks ps \<Longrightarrow> handle_loop t' ps = None"
proof (induction t ks arbitrary: t' ps rule: removeNode_loop.induct)
  case (1 node)
  then show ?case by simp
next
  case (2 node k)
  from \<open>prefix [k] ps\<close> obtain ps' where ps: "ps = k # ps'" by (auto simp: prefix_def)
  from "2.prems"(1) have "children t' = AList.delete k (children node)"
    by (auto split: option.splits)
  with ps show ?case by (simp add: delete_conv')
next
  case (3 node k v va)
  from \<open>prefix (k # v # va) ps\<close> obtain ps' where ps: "ps = k # ps'" and pre: "prefix (v # va) ps'"
    by (auto simp: prefix_def)
  from "3.prems"(1) obtain child child' where
    c: "map_of (children node) k = Some child" and
    r: "removeNode_loop child (v # va) = Some child'" and
    t': "children t' = AList.update k child' (children node)"
    by (auto split: option.splits)
  have "handle_loop child' ps' = None"
    using "3.IH" [OF c r _ pre] by simp
  with ps t' show ?case by (simp add: update_conv')
qed

lemma removeNode_loop_None:
  "ks \<noteq> [] \<Longrightarrow> (removeNode_loop t ks = None) = (handle_loop t ks = None)"
proof (induction t ks rule: removeNode_loop.induct)
  case (1 node)
  then show ?case by simp
next
  case (2 node k)
  show ?case by (simp split: option.splits)
next
  case (3 node k v va)
  show ?case
  proof (cases "map_of (children node) k")
    case None
    then show ?thesis by simp
  next
    case (Some child)
    have ih: "(removeNode_loop child (v # va) = None) = (handle_loop child (v # va) = None)"
      using "3.IH" [OF Some] by simp
    have l: "handle_loop node (k # v # va) = handle_loop child (v # va)"
      using Some by simp
    show ?thesis
    proof (cases "removeNode_loop child (v # va)")
      case None
      with ih l Some show ?thesis by simp
    next
      case r: (Some child')
      with ih have "handle_loop child (v # va) \<noteq> None" by simp
      with l r Some show ?thesis by simp
    qed
  qed
qed

lemma removeNode_loop_other:
  "removeNode_loop t ks = Some t' \<Longrightarrow> ks \<noteq> [] \<Longrightarrow> \<not> prefix ks ps \<Longrightarrow>
   map_option rpcServer (handle_loop t' ps) = map_option rpcServer (handle_loop t ps)"
proof (induction t ks arbitrary: t' ps rule: removeNode_loop.induct)
  case (1 node)
  then show ?case by simp
next
  case (2 node k)
  from "2.prems"(1) have t': "t' = RPCNode (AList.delete k (children node)) (name node) (rpcServer node)"
    by (auto split: option.splits)
  show ?case
  proof (cases ps)
    case Nil
    with t' show ?thesis by simp
  next
    case (Cons p ps')
    with "2.prems"(3) have "p \<noteq> k" by auto
    with t' Cons show ?thesis by (simp add: delete_conv')
  qed
next
  case (3 node k v va)
  from "3.prems"(1) obtain child child' where
    c: "map_of (children node) k = Some child" and
    r: "removeNode_loop child (v # va) = Some child'" and
    t': "t' = RPCNode (AList.update k child' (children node)) (name node) (rpcServer node)"
    by (auto split: option.splits)
  show ?case
  proof (cases ps)
    case Nil
    with t' show ?thesis by simp
  next
    case (Cons p ps')
    show ?thesis
    proof (cases "p = k")
      case False
      with t' Cons show ?thesis by (simp add: update_conv')
    next
      case True
      with "3.prems"(3) Cons have np: "\<not> prefix (v # va) ps'" by simp
      have "map_option rpcServer (handle_loop child' ps') = map_option rpcServer (handle_loop child ps')"
        using "3.IH" [OF c r _ np] by simp
      with t' Cons True c show ?thesis by (simp add: update_conv')
    qed
  qed
qed

lemma root_constructor: "root (constructor ssl url token bin) = RPCNode [] '''' None"
  by (simp add: constructor_def new_RPCNode_def)

lemma root_removeNode:
  "k \<noteq> '''' \<Longrightarrow>
   root (removeNode k c) =
     (case removeNode_loop (root c) (split_dot k) of None \<Rightarrow> root c | Some r \<Rightarrow> r)"
  by (simp add: removeNode_def split: option.splits)

lemma removeNode_missing:
  "k \<noteq> '''' \<Longrightarrow> handle_loop (root c) (split_dot k) = None \<Longrightarrow> removeNode k c = c"
  using removeNode_loop_None [OF split_dot_not_Nil, of "root c" k]
  by (simp add: removeNode_def)

lemma handle_loop_new_RPCNode:
  "Option.bind (handle_loop (new_RPCNode k None) ps) rpcServer = None"
  by (cases ps) (simp_all add: new_RPCNode_def)

text \<open>One round of the loop of \<open>addNode\<close> in the single-file copy.\<close>

lemma addNode_loop_part_000_Cons:
  "addNode_loop create_part_000 (k # ks) h t =
     (fst (addNode_loop create_part_000 ks h
            (case map_of (children t) k of None \<Rightarrow> new_RPCNode k None | Some ch \<Rightarrow> ch)),
      RPCNode
        (AList.update k
           (snd (addNode_loop create_part_000 ks h
                  (case map_of (children t) k of None \<Rightarrow> new_RPCNode k None | Some ch \<Rightarrow> ch)))
           (children t))
        (name t) (rpcServer t))"
proof (cases "map_of (children t) k")
  case None
  have "create_part_000 k = Inr (new_RPCNode k None)" by (simp add: create_part_000_def)
  with None show ?thesis by (simp only: addNode_loop.simps) (simp add: case_prod_beta)
next
  case (Some ch)
  then show ?thesis by (simp only: addNode_loop.simps) (simp add: case_prod_beta)
qed

lemma addNode_loop_part_000_fst: "fst (addNode_loop create_part_000 ks h t) = None"
proof (induction ks arbitrary: t)
  case Nil
  show ?case by simp
next
  case (Cons k ks)
  show ?case by (simp only: addNode_loop_part_000_Cons fst_conv Cons.IH)
qed

lemma addNode_loop_part_000_same:
  "Option.bind (handle_loop (snd (addNode_loop create_part_000 ks h t)) ks) rpcServer = Some h"
proof (induction ks arbitrary: t)
  case Nil
  show ?case by simp
next
  case (Cons k ks)
  show ?case
    by (simp only: addNode_loop_part_000_Cons snd_conv) (simp add: update_conv' Cons.IH)
qed

lemma addNode_loop_part_000_other:
  "ps \<noteq> ks \<Longrightarrow>
   Option.bind (handle_loop (snd (addNode_loop create_part_000 ks h t)) ps) rpcServer =
   Option.bind (handle_loop t ps) rpcServer"
proof (induction ks arbitrary: t ps)
  case Nil
  then show ?case by (cases ps) simp_all
next
  case (Cons k ks)
  let ?child = "case map_of (children t) k of None \<Rightarrow> new_RPCNode k None | Some ch \<Rightarrow> ch"
  have s: "snd (addNode_loop create_part_000 (k # ks) h t) =
      RPCNode (AList.update k (snd (addNode_loop create_part_000 ks h ?child)) (children t))
        (name t) (rpcServer t)"
    by (simp only: addNode_loop_part_000_Cons snd_conv)
  show ?case
  proof (cases ps)
    case Nil
    then show ?thesis unfolding s by simp
  next
    case ps: (Cons p ps')
    show ?thesis
    proof (cases "p = k")
      case False
      with ps show ?thesis unfolding s by (simp add: update_conv')
    next
      case True
      with ps Cons.prems have ne: "ps' \<noteq> ks" by simp
      have ih: "Option.bind (handle_loop (snd (addNode_loop create_part_000 ks h ?child)) ps')
          rpcServer = Option.bind (handle_loop ?child ps') rpcServer"
        by (rule Cons.IH [OF ne])
      show ?thesis
      proof (cases "map_of (children t) k")
        case None
        with True ps ih show ?thesis
          unfolding s by (simp add: update_conv' handle_loop_new_RPCNode)
      next
        case (Some child)
        with True ps ih show ?thesis unfolding s by (simp add: update_conv')
      qed
    qed
  qed
qed

lemma addNode_part_000_eq:
  "k \<noteq> '''' \<Longrightarrow>
   addNode_part_000 k (Some h) c =
     (None, c\<lparr>root := snd (addNode_loop create_part_000 (split_dot k) h (root c))\<rparr>)"
  using addNode_loop_part_000_fst [of "split_dot k" h "root c"]
  by (simp add: addNode_part_000_def addNode_with_def case_prod_beta)

lemma addNode_part_000_lookup:
  "k \<noteq> '''' \<Longrightarrow> lookup (root (snd (addNode_part_000 k (Some h) c))) k = Some h"
  by (simp add: addNode_part_000_eq lookup_bind addNode_loop_part_000_same)

lemma addNode_part_000_lookup_other:
  "k \<noteq> '''' \<Longrightarrow> k' \<noteq> k \<Longrightarrow>
   lookup (root (snd (addNode_part_000 k (Some h) c))) k' = lookup (root c) k'"
proof -
  assume k: "k \<noteq> ''''" and ne: "k' \<noteq> k"
  from ne have "split_dot k' \<noteq> split_dot k" using split_dot_inj by blast
  then show ?thesis
    by (simp add: addNode_part_000_eq [OF k] lookup_bind addNode_loop_part_000_other)
qed

lemma addNode_loop_create_missing:
  "map_of (children t) k = None \<Longrightarrow>
   addNode_loop create (k # ks) h t = (Some (ReferenceError ''RPCRouterNode''), t)"
  by (simp add: create_def)

lemma handle_no_node:
  "key data \<noteq> '''' \<Longrightarrow> handle_loop (root c) (split_dot (key data)) = None \<Longrightarrow>
   handle data now c = (None, console_error (''SimpleRPC: No such node '' @ key data) c)"
  by (simp add: handle_def)

section \<open>Sending and the registry\<close>

lemma send_eq:
  "send msg useBin c =
     (if readyState (websocket_client c) = CONNECTING then Some NotOpen else None,
      c\<lparr>websocket_client :=
           (if readyState (websocket_client c) = OPEN then
              (websocket_client c)\<lparr>transmitted := transmitted (websocket_client c) @
                 [frame_of (case useBin of None \<Rightarrow> bin_first c | Some b \<Rightarrow> b) msg]\<rparr>
            else websocket_client c),
         effects := effects c @
           [WsSend (frame_of (case useBin of None \<Rightarrow> bin_first c | Some b \<Rightarrow> b) msg)]\<rparr>)"
  by (cases "readyState (websocket_client c)")
     (simp_all add: send_def websocket_client_send_def WebSocket_send_def frame_of_def
        truthy_def WebSocket_OPEN_def Let_def)

lemma send_fst:
  "fst (send msg useBin c) =
     (if readyState (websocket_client c) = CONNECTING then Some NotOpen else None)"
  by (simp add: send_eq)

lemma send_effects:
  "effects (snd (send msg useBin c)) =
     effects c @ [WsSend (frame_of (case useBin of None \<Rightarrow> bin_first c | Some b \<Rightarrow> b) msg)]"
  by (simp add: send_eq)

lemma send_keeps:
  "server_cache (snd (send msg useBin c)) = server_cache c"
  "root (snd (send msg useBin c)) = root c"
  "bin_first (snd (send msg useBin c)) = bin_first c"
  "status (snd (send msg useBin c)) = status c"
  "readyState (websocket_client (snd (send msg useBin c))) = readyState (websocket_client c)"
  by (simp_all add: send_eq)

text \<open>
  A handler invocation followed by \<open>send\<close> of its result, as \<open>handle\<close> and \<open>onClear\<close>
  have it.
\<close>

lemma invoke_then_send_fst:
  "fst (case invoke server req c of (None, c1) \<Rightarrow> (None, c1) | (Some re, c1) \<Rightarrow> send re None c1) =
     (case server req of
        None \<Rightarrow> None
      | Some re \<Rightarrow> if readyState (websocket_client c) = CONNECTING then Some NotOpen else None)"
  by (cases "server req") (simp_all add: invoke_def send_eq)

lemma invoke_then_send_effects:
  "effects (snd (case invoke server req c of
                   (None, c1) \<Rightarrow> (None, c1) | (Some re, c1) \<Rightarrow> send re None c1)) =
     effects c @ delivery (bin_first c) server req"
  by (cases "server req") (simp_all add: invoke_def send_eq delivery_def)

lemma invoke_then_send_keeps:
  "server_cache (snd (case invoke server req c of
                   (None, c1) \<Rightarrow> (None, c1) | (Some re, c1) \<Rightarrow> send re None c1)) = server_cache c"
  "root (snd (case invoke server req c of
                   (None, c1) \<Rightarrow> (None, c1) | (Some re, c1) \<Rightarrow> send re None c1)) = root c"
  "bin_first (snd (case invoke server req c of
                   (None, c1) \<Rightarrow> (None, c1) | (Some re, c1) \<Rightarrow> send re None c1)) = bin_first c"
  "readyState (websocket_client (snd (case invoke server req c of
                   (None, c1) \<Rightarrow> (None, c1) | (Some re, c1) \<Rightarrow> send re None c1))) =
     readyState (websocket_client c)"
  by (cases "server req"; simp add: invoke_def send_eq)+

lemma onClear_fst:
  "fst (onClear k v c) =
     (case v (APIResponse k 408 ''Request timeout'' '''' (VStr '''') (VMap [])) of
        None \<Rightarrow> None
      | Some re \<Rightarrow> if readyState (websocket_client c) = CONNECTING then Some NotOpen else None)"
  unfolding onClear_def Let_def by (rule invoke_then_send_fst)

lemma onClear_effects:
  "effects (snd (onClear k v c)) =
     effects c @ delivery (bin_first c) v
       (APIResponse k 408 ''Request timeout'' '''' (VStr '''') (VMap []))"
  unfolding onClear_def Let_def by (rule invoke_then_send_effects)

lemma onClear_keeps:
  "server_cache (snd (onClear k v c)) = server_cache c"
  "bin_first (snd (onClear k v c)) = bin_first c"
  "readyState (websocket_client (snd (onClear k v c))) = readyState (websocket_client c)"
  unfolding onClear_def Let_def by (rule invoke_then_send_keeps)+

lemma sends_append: "sends (xs @ ys) = sends xs @ sends ys"
  by (simp add: sends_def)

lemma sends_delivery: "length (sends (delivery b server req)) \<le> 1"
  by (simp add: sends_def delivery_def split: option.splits)

lemma calls_append: "calls (xs @ ys) = calls xs @ calls ys"
  by (simp add: calls_def)

lemma calls_delivery: "calls (delivery b server req) = [(server, req)]"
  by (cases "server req") (simp_all add: calls_def delivery_def)

lemma TimedCache_get_hit:
  "fst (TimedCache_get k now tc) = Some v \<Longrightarrow> snd (TimedCache_get k now tc) = tc"
  by (simp add: TimedCache_get_def split: option.splits if_splits)

lemma TimedCache_get_after_set:
  "now < t0 + ttl tc \<Longrightarrow> fst (TimedCache_get k now (TimedCache_set k v t0 tc)) = Some v"
  by (simp add: TimedCache_get_def TimedCache_set_def update_conv')

lemma TimedCache_get_absent:
  "map_of (cache tc) k = None \<Longrightarrow> TimedCache_get k now tc = (None, tc)"
proof -
  assume a: "map_of (cache tc) k = None"
  then have "k \<notin> fst ` set (cache tc)" by (simp add: map_of_eq_None_iff)
  then have "AList.delete k (cache tc) = cache tc" by simp
  with a show ?thesis by (simp add: TimedCache_get_def)
qed

lemma root_rpcServer_handle_miss:
  "fst (TimedCache_get (UUID req) now (server_cache c)) = None \<Longrightarrow>
   root_rpcServer_handle req now c =
     (Inr None, c\<lparr>server_cache := snd (TimedCache_get (UUID req) now (server_cache c))\<rparr>)"
  by (cases "TimedCache_get (UUID req) now (server_cache c)")
     (simp add: root_rpcServer_handle_def)

lemma root_rpcServer_handle_hit:
  assumes "fst (TimedCache_get (UUID req) now (server_cache c)) = Some server"
  shows "fst (root_rpcServer_handle req now c) =
           (case server req of
              None \<Rightarrow> Inr None
            | Some re \<Rightarrow>
                if readyState (websocket_client c) = CONNECTING then Inl NotOpen else Inr None)"
    and "effects (snd (root_rpcServer_handle req now c)) =
           effects c @ delivery (bin_first c) server req"
    and "server_cache (snd (root_rpcServer_handle req now c)) =
           TimedCache_remove (UUID req) (server_cache c)"
proof -
  from assms TimedCache_get_hit [OF assms]
  have g: "TimedCache_get (UUID req) now (server_cache c) = (Some server, server_cache c)"
    by (simp add: prod_eq_iff)
  show "fst (root_rpcServer_handle req now c) =
           (case server req of
              None \<Rightarrow> Inr None
            | Some re \<Rightarrow>
                if readyState (websocket_client c) = CONNECTING then Inl NotOpen else Inr None)"
    by (cases "server req")
       (simp_all add: root_rpcServer_handle_def g Let_def invoke_def send_eq)
  show "effects (snd (root_rpcServer_handle req now c)) =
           effects c @ delivery (bin_first c) server req"
    by (cases "server req")
       (simp_all add: root_rpcServer_handle_def g Let_def invoke_def send_eq delivery_def)
  show "server_cache (snd (root_rpcServer_handle req now c)) =
           TimedCache_remove (UUID req) (server_cache c)"
    by (cases "server req")
       (simp_all add: root_rpcServer_handle_def g Let_def invoke_def send_eq)
qed

lemma root_rpcServer_handle_fst:
  "fst (root_rpcServer_handle req now c) =
     (case fst (TimedCache_get (UUID req) now (server_cache c)) of
        None \<Rightarrow> Inr None
      | Some server \<Rightarrow>
          (case server req of
             None \<Rightarrow> Inr None
           | Some re \<Rightarrow>
               if readyState (websocket_client c) = CONNECTING then Inl NotOpen else Inr None))"
proof (cases "fst (TimedCache_get (UUID req) now (server_cache c))")
  case None
  then show ?thesis by (simp add: root_rpcServer_handle_miss)
next
  case (Some server)
  then show ?thesis by (simp add: root_rpcServer_handle_hit(1))
qed

lemma root_rpcServer_handle_effects:
  "effects (snd (root_rpcServer_handle req now c)) =
   effects c @ (case fst (TimedCache_get (UUID req) now (server_cache c)) of
                  None \<Rightarrow> [] | Some server \<Rightarrow> delivery (bin_first c) server req)"
proof (cases "fst (TimedCache_get (UUID req) now (server_cache c))")
  case None
  then show ?thesis by (simp add: root_rpcServer_handle_miss)
next
  case (Some server)
  then show ?thesis by (simp add: root_rpcServer_handle_hit(2))
qed

lemma handle_root:
  "key req = '''' \<Longrightarrow>
   handle req now c =
     (case fst (root_rpcServer_handle req now c) of Inl x \<Rightarrow> Some x | Inr re \<Rightarrow> None,
      snd (root_rpcServer_handle req now c))"
  by (simp add: handle_def case_prod_beta split: sum.splits)

text \<open>
  A request with a non-empty key that resolves to a handler: the handler is invoked
  once with the request and its result, if any, goes to \<open>send\<close>.
\<close>

lemma handle_lookup:
  "key data \<noteq> '''' \<Longrightarrow> lookup (root c) (key data) = Some server \<Longrightarrow>
   effects (snd (handle data now c)) = effects c @ delivery (bin_first c) server data"
  by (auto simp: handle_def lookup_def invoke_then_send_effects split: option.splits)

subsection \<open>The sweep\<close>

lemma clearExpired_loop_not_connecting:
  "readyState (websocket_client c) \<noteq> CONNECTING \<Longrightarrow>
   fst (clearExpired_loop now es c) = None
   \<and> effects (snd (clearExpired_loop now es c)) =
       effects c @ concat (map (sweep_effects now (bin_first c)) es)
   \<and> cache (server_cache (snd (clearExpired_loop now es c))) =
       fold (\<lambda>e xs. if expiry (snd e) \<le> now then AList.delete (fst e) xs else xs) es
         (cache (server_cache c))"
proof (induction es arbitrary: c)
  case Nil
  show ?case by simp
next
  case (Cons e es)
  show ?case
  proof (cases "expiry (snd e) \<le> now")
    case False
    with Cons.IH [OF Cons.prems] show ?thesis by (simp add: sweep_effects_def)
  next
    case True
    obtain r c1 where o: "onClear (fst e) (item_value (snd e)) c = (r, c1)"
      by (cases "onClear (fst e) (item_value (snd e)) c")
    from onClear_fst [of "fst e" "item_value (snd e)" c] o Cons.prems have r: "r = None"
      by (simp split: option.splits)
    from onClear_effects [of "fst e" "item_value (snd e)" c] o
    have e1: "effects c1 = effects c @ sweep_effects now (bin_first c) e"
      by (simp add: sweep_effects_def True)
    from onClear_keeps [of "fst e" "item_value (snd e)" c] o
    have k1: "server_cache c1 = server_cache c" "bin_first c1 = bin_first c"
      "readyState (websocket_client c1) = readyState (websocket_client c)"
      by simp_all
    let ?c2 = "c1\<lparr>server_cache := TimedCache_remove (fst e) (server_cache c1)\<rparr>"
    have nc: "readyState (websocket_client ?c2) \<noteq> CONNECTING"
      using Cons.prems k1 by simp
    have step: "clearExpired_loop now (e # es) c = clearExpired_loop now es ?c2"
      using True o r by simp
    from Cons.IH [OF nc] show ?thesis
      unfolding step by (simp add: e1 k1 True TimedCache_remove_def)
  qed
qed

lemma delete_fold_absent:
  "k \<notin> fst ` set xs \<Longrightarrow>
   k \<notin> fst ` set (fold (\<lambda>e xs. if expiry (snd e) \<le> now then AList.delete (fst e) xs else xs)
                      es xs)"
proof (induction es arbitrary: xs)
  case Nil
  then show ?case by simp
next
  case (Cons e es)
  have "k \<notin> fst ` set (if expiry (snd e) \<le> now then AList.delete (fst e) xs else xs)"
    using Cons.prems dom_delete_subset [of "fst e" xs] by auto
  from Cons.IH [OF this] show ?case by simp
qed

lemma delete_fold_expired:
  "e \<in> set es \<Longrightarrow> expiry (snd e) \<le> now \<Longrightarrow>
   fst e \<notin> fst ` set (fold (\<lambda>e xs. if expiry (snd e) \<le> now then AList.delete (fst e) xs else xs)
                          es xs)"
proof (induction es arbitrary: xs)
  case Nil
  then show ?case by simp
next
  case (Cons x es)
  show ?case
  proof (cases "x = e")
    case True
    have "fst e \<notin> fst ` set (AList.delete (fst e) xs)" by (rule delete_notin_dom)
    from delete_fold_absent [OF this] True Cons.prems(2) show ?thesis by simp
  next
    case False
    with Cons.prems have "e \<in> set es" by simp
    from Cons.IH [OF this Cons.prems(2)] show ?thesis by simp
  qed
qed

text \<open>
  The sweep on a socket that is not connecting: it ends without an exception, every
  expired entry's handler gets the timeout envelope, a result of the handler goes to
  \<open>send\<close>, and the expired keys are gone afterwards.
\<close>

lemma clearExpired_not_connecting:
  assumes "readyState (websocket_client c) \<noteq> CONNECTING"
  shows "fst (clearExpired now c) = None"
    and "effects (snd (clearExpired now c)) =
           effects c @ concat (map (sweep_effects now (bin_first c)) (cache (server_cache c)))"
    and "e \<in> set (cache (server_cache c)) \<Longrightarrow> expiry (snd e) \<le> now \<Longrightarrow>
           map_of (cache (server_cache (snd (clearExpired now c)))) (fst e) = None"
proof -
  note l = clearExpired_loop_not_connecting [OF assms, of now "cache (server_cache c)"]
  from l show "fst (clearExpired now c) = None" by (simp add: clearExpired_def)
  from l show "effects (snd (clearExpired now c)) =
           effects c @ concat (map (sweep_effects now (bin_first c)) (cache (server_cache c)))"
    by (simp add: clearExpired_def)
  assume m: "e \<in> set (cache (server_cache c))" and x: "expiry (snd e) \<le> now"
  from l delete_fold_expired [OF m x, of "cache (server_cache c)"]
  have "fst e \<notin> fst ` set (cache (server_cache (snd (clearExpired now c))))"
    by (simp add: clearExpired_def)
  then show "map_of (cache (server_cache (snd (clearExpired now c)))) (fst e) = None"
    by (simp add: map_of_eq_None_iff)
qed

text \<open>
  The sweep on a connecting socket stops at the first expired entry whose handler
  returns an envelope: the exception of \<open>send\<close> leaves \<open>clearExpired\<close> with that entry
  still in the registry.
\<close>

lemma clearExpired_loop_connecting:
  "readyState (websocket_client c) = CONNECTING \<Longrightarrow> expiry (snd e) \<le> now \<Longrightarrow>
   item_value (snd e) (APIResponse (fst e) 408 ''Request timeout'' '''' (VStr '''') (VMap [])) = Some re \<Longrightarrow>
   fst (clearExpired_loop now (e # es) c) = Some NotOpen
   \<and> server_cache (snd (clearExpired_loop now (e # es) c)) = server_cache c
   \<and> effects (snd (clearExpired_loop now (e # es) c)) =
       effects c @ sweep_effects now (bin_first c) e"
proof -
  assume cn: "readyState (websocket_client c) = CONNECTING" and x: "expiry (snd e) \<le> now"
    and re: "item_value (snd e)
      (APIResponse (fst e) 408 ''Request timeout'' '''' (VStr '''') (VMap [])) = Some re"
  obtain r c1 where o: "onClear (fst e) (item_value (snd e)) c = (r, c1)"
    by (cases "onClear (fst e) (item_value (snd e)) c")
  from onClear_fst [of "fst e" "item_value (snd e)" c] o cn re have r: "r = Some NotOpen"
    by simp
  from onClear_effects [of "fst e" "item_value (snd e)" c] o
  have e1: "effects c1 = effects c @ sweep_effects now (bin_first c) e"
    by (simp add: sweep_effects_def x)
  from onClear_keeps(1) [of "fst e" "item_value (snd e)" c] o
  have k1: "server_cache c1 = server_cache c" by simp
  have "clearExpired_loop now (e # es) c = (Some NotOpen, c1)"
    using x o r by simp
  with e1 k1 show ?thesis by simp
qed

subsection \<open>Decoding\<close>

text \<open>
  A frame that leaves every field out decodes to the defaults of the class.
\<close>

lemma handleStr_defaults: "handleStr (DObj []) = Some (APIResponse '''' 200 '''' '''' (VStr '''') (VMap []))"
  by (simp add: handleStr_def new_APIResponse_def string_property_def number_property_def
      any_property_def)

lemma handleBin_defaults: "handleBin (DObj []) = Some (APIResponse '''' 200 '''' '''' (VStr '''') (VMap []))"
  by (simp add: handleBin_def new_APIResponse_def string_property_def number_property_def
      any_property_def)

section \<open>The claims\<close>

text \<open>
  C1. Whenever the transport is not open, \<open>send\<close> should be a no-op. The guard of
  \<open>send\<close> reads the constant \<open>OPEN\<close> of the socket, not its state, so it always holds
  and the frame always reaches \<open>websocket_client.send\<close>. On a client whose socket is
  still connecting, \<open>send\<close> therefore ends with the exception of the socket. After
  \<open>close()\<close> the socket is closing or closed and discards the frame: \<open>send\<close> returns
  and nothing is transmitted, for every client, message and choice of codec.
\<close>

theorem send_before_open_throws:
  "fst (send (APIResponse ''u1'' 200 '''' ''svc.ping'' (VStr '''') (VMap [])) None
         (constructor False ''host'' '''' False)) = Some NotOpen
   \<and> effects (snd (send (APIResponse ''u1'' 200 '''' ''svc.ping'' (VStr '''') (VMap [])) None
         (constructor False ''host'' '''' False))) =
       [WsNew ''wss://host?token='',
        WsSend (TextFrame (DObj [(''UUID'', DStr ''u1''), (''status'', DNum 200),
          (''message'', DStr ''''), (''key'', DStr ''svc.ping''), (''request'', DStr ''''),
          (''params'', DObj [])]))]
   \<and> fst (send msg useBin (close c)) = None
   \<and> transmitted (websocket_client (snd (send msg useBin (close c)))) =
       transmitted (websocket_client c)"
proof -
  let ?c0 = "constructor False ''host'' '''' False"
  let ?m = "APIResponse ''u1'' 200 '''' ''svc.ping'' (VStr '''') (VMap [])"
  have c0: "readyState (websocket_client ?c0) = CONNECTING" "bin_first ?c0 = False"
    "effects ?c0 = [WsNew ''wss://host?token='']"
    by (simp_all add: constructor_def websocket_address_def)
  have g1: "fst (send ?m None ?c0) = Some NotOpen"
    by (simp add: send_fst c0)
  have g2: "effects (snd (send ?m None ?c0)) =
       [WsNew ''wss://host?token='',
        WsSend (TextFrame (DObj [(''UUID'', DStr ''u1''), (''status'', DNum 200),
          (''message'', DStr ''''), (''key'', DStr ''svc.ping''), (''request'', DStr ''''),
          (''params'', DObj [])]))]"
    by (simp add: send_effects c0 frame_of_def toJsonStr_def)
  have cl: "readyState (websocket_client (close c)) \<noteq> CONNECTING"
    "readyState (websocket_client (close c)) \<noteq> OPEN"
    "transmitted (websocket_client (close c)) = transmitted (websocket_client c)"
    by (cases "readyState (websocket_client c)"; simp add: close_def WebSocket_close_def)+
  have g3: "fst (send msg useBin (close c)) = None"
    by (simp add: send_fst cl)
  have g4: "transmitted (websocket_client (snd (send msg useBin (close c)))) =
       transmitted (websocket_client c)"
    by (simp add: send_eq cl)
  from g1 g2 g3 g4 show ?thesis by blast
qed

text \<open>
  C2. A handler \<open>h\<close> is registered with \<open>sendAndCallBack\<close> at time \<open>t0\<close> under the
  identifier of \<open>msg\<close>. An inbound envelope \<open>env\<close> with the empty key and that
  identifier, dispatched at a time \<open>t1\<close> before the entry expires, invokes \<open>h\<close> exactly
  once with \<open>env\<close> (forwarding the result of \<open>h\<close>, if any, to \<open>send\<close>) and removes the
  entry; dispatching \<open>env\<close> again, at any time \<open>t2\<close>, returns and changes nothing: no
  handler is invoked and nothing is sent or logged. This holds in every state of the
  socket, also where a \<open>send\<close> on the way ends with an exception.
\<close>

theorem callback_invoked_once:
  assumes k: "key env = ''''" and u: "UUID env = UUID msg" and t: "t1 < t0 + ttl (server_cache c)"
  shows "effects (snd (handle env t1 (snd (sendAndCallBack msg useBin h t0 c)))) =
           effects (snd (sendAndCallBack msg useBin h t0 c)) @ delivery (bin_first c) h env
         \<and> calls (effects (snd (handle env t1 (snd (sendAndCallBack msg useBin h t0 c))))) =
           calls (effects (snd (sendAndCallBack msg useBin h t0 c))) @ [(h, env)]
         \<and> map_of (cache (server_cache
               (snd (handle env t1 (snd (sendAndCallBack msg useBin h t0 c))))))
             (UUID env) = None
         \<and> handle env t2 (snd (handle env t1 (snd (sendAndCallBack msg useBin h t0 c)))) =
           (None, snd (handle env t1 (snd (sendAndCallBack msg useBin h t0 c))))"
proof -
  let ?c1 = "snd (sendAndCallBack msg useBin h t0 c)"
  let ?c2 = "snd (handle env t1 ?c1)"
  have sc: "server_cache ?c1 = TimedCache_set (UUID env) h t0 (server_cache c)"
    by (simp add: sendAndCallBack_def send_keeps addSendCallBack_def u)
  have bf: "bin_first ?c1 = bin_first c"
    by (simp add: sendAndCallBack_def send_keeps addSendCallBack_def)
  have hit: "fst (TimedCache_get (UUID env) t1 (server_cache ?c1)) = Some h"
    unfolding sc by (rule TimedCache_get_after_set [OF t])
  have c2: "?c2 = snd (root_rpcServer_handle env t1 ?c1)"
    by (simp add: handle_root [OF k])
  have e: "effects ?c2 = effects ?c1 @ delivery (bin_first c) h env"
    unfolding c2 by (simp add: root_rpcServer_handle_hit(2) [OF hit] bf)
  then have cl: "calls (effects ?c2) = calls (effects ?c1) @ [(h, env)]"
    by (simp add: calls_append calls_delivery)
  have "server_cache ?c2 = TimedCache_remove (UUID env) (server_cache ?c1)"
    unfolding c2 by (rule root_rpcServer_handle_hit(3) [OF hit])
  then have gone: "map_of (cache (server_cache ?c2)) (UUID env) = None"
    by (simp add: TimedCache_remove_def delete_conv')
  have g: "TimedCache_get (UUID env) t2 (server_cache ?c2) = (None, server_cache ?c2)"
    by (rule TimedCache_get_absent [OF gone])
  then have "root_rpcServer_handle env t2 ?c2 = (Inr None, ?c2)"
    by (simp add: root_rpcServer_handle_miss)
  then have again: "handle env t2 ?c2 = (None, ?c2)"
    by (simp add: handle_root [OF k])
  from e cl gone again show ?thesis by blast
qed

theorem callback_invoked_once_witness:
  "key (APIResponse ''X'' 200 ''ok'' '''' (VStr '''') (VMap [])) = ''''
   \<and> UUID (APIResponse ''X'' 200 ''ok'' '''' (VStr '''') (VMap [])) =
       UUID (APIResponse ''X'' 200 '''' ''svc.ping'' (VStr '''') (VMap []))
   \<and> (2000::int) < 1000 + ttl (server_cache (socket_opens (constructor False ''host'' '''' False)))
   \<and> calls (effects (snd (handle (APIResponse ''X'' 200 ''ok'' '''' (VStr '''') (VMap [])) 2000
        (snd (sendAndCallBack (APIResponse ''X'' 200 '''' ''svc.ping'' (VStr '''') (VMap [])) None
           (\<lambda>r. None) 1000 (socket_opens (constructor False ''host'' '''' False))))))) =
       [(\<lambda>r. None, APIResponse ''X'' 200 ''ok'' '''' (VStr '''') (VMap []))]
   \<and> handle (APIResponse ''X'' 200 ''ok'' '''' (VStr '''') (VMap [])) 3000
       (snd (handle (APIResponse ''X'' 200 ''ok'' '''' (VStr '''') (VMap [])) 2000
        (snd (sendAndCallBack (APIResponse ''X'' 200 '''' ''svc.ping'' (VStr '''') (VMap [])) None
           (\<lambda>r. None) 1000 (socket_opens (constructor False ''host'' '''' False)))))) =
     (None,
      snd (handle (APIResponse ''X'' 200 ''ok'' '''' (VStr '''') (VMap [])) 2000
        (snd (sendAndCallBack (APIResponse ''X'' 200 '''' ''svc.ping'' (VStr '''') (VMap [])) None
           (\<lambda>r. None) 1000 (socket_opens (constructor False ''host'' '''' False))))))"
proof -
  let ?c = "socket_opens (constructor False ''host'' '''' False)"
  let ?env = "APIResponse ''X'' 200 ''ok'' '''' (VStr '''') (VMap [])"
  let ?msg = "APIResponse ''X'' 200 '''' ''svc.ping'' (VStr '''') (VMap [])"
  let ?c1 = "snd (sendAndCallBack ?msg None (\<lambda>r. None) 1000 ?c)"
  have h1: "key ?env = ''''" by simp
  have h2: "UUID ?env = UUID ?msg" by simp
  have h3: "(2000::int) < 1000 + ttl (server_cache ?c)"
    by (simp add: socket_opens_def on_open_def constructor_def new_TimedCache_def)
  have "effects ?c = [WsNew ''wss://host?token='']"
    by (simp add: socket_opens_def on_open_def constructor_def websocket_address_def)
  then have before: "calls (effects ?c1) = []"
    by (simp add: sendAndCallBack_def send_effects addSendCallBack_def calls_def)
  note t = callback_invoked_once [OF h1 h2 h3, of None "\<lambda>r. None" 3000]
  from t have "calls (effects (snd (handle ?env 2000 ?c1))) =
      calls (effects ?c1) @ [(\<lambda>r. None, ?env)]"
    by blast
  then have g1: "calls (effects (snd (handle ?env 2000 ?c1))) = [(\<lambda>r. None, ?env)]"
    by (simp only: before append_Nil)
  from t have g2: "handle ?env 3000 (snd (handle ?env 2000 ?c1)) =
      (None, snd (handle ?env 2000 ?c1))"
    by blast
  from h1 h2 h3 g1 g2 show ?thesis by blast
qed

text \<open>
  C3. The sweep should invoke the handler of every expired entry with the timeout
  envelope and then delete the entry. On a client whose socket is still connecting,
  with two expired entries whose handlers return an envelope, the \<open>send\<close> of the first
  result ends with the exception of the socket (the guard of C1), and nothing catches
  it: the sweep ends there, the first entry is still in the registry after its handler
  has run, and the handler of the second entry is never invoked.
\<close>

theorem sweep_aborted_while_connecting:
  "fst (clearExpired 150000
         (addSendCallBack ''K2'' (\<lambda>r. Some r) 0
           (addSendCallBack ''K1'' (\<lambda>r. Some r) 0 (constructor False ''host'' '''' False)))) =
     Some NotOpen
   \<and> map fst (cache (server_cache (snd (clearExpired 150000
         (addSendCallBack ''K2'' (\<lambda>r. Some r) 0
           (addSendCallBack ''K1'' (\<lambda>r. Some r) 0 (constructor False ''host'' '''' False))))))) =
     [''K1'', ''K2'']
   \<and> calls (effects (snd (clearExpired 150000
         (addSendCallBack ''K2'' (\<lambda>r. Some r) 0
           (addSendCallBack ''K1'' (\<lambda>r. Some r) 0 (constructor False ''host'' '''' False)))))) =
     [(\<lambda>r. Some r, APIResponse ''K1'' 408 ''Request timeout'' '''' (VStr '''') (VMap []))]"
proof -
  let ?c = "addSendCallBack ''K2'' (\<lambda>r. Some r) 0
           (addSendCallBack ''K1'' (\<lambda>r. Some r) 0 (constructor False ''host'' '''' False))"
  let ?e1 = "(''K1'', \<lparr>item_value = (\<lambda>r. Some r) :: RPCServer, expiry = 120000\<rparr>)"
  let ?e2 = "(''K2'', \<lparr>item_value = (\<lambda>r. Some r) :: RPCServer, expiry = 120000\<rparr>)"
  have cc: "cache (server_cache ?c) = [?e1, ?e2]"
    by (simp add: addSendCallBack_def constructor_def new_TimedCache_def TimedCache_set_def)
  have cn: "readyState (websocket_client ?c) = CONNECTING"
    by (simp add: addSendCallBack_def constructor_def)
  have ef: "effects ?c = [WsNew ''wss://host?token='']"
    by (simp add: addSendCallBack_def constructor_def websocket_address_def)
  have x: "expiry (snd ?e1) \<le> (150000::int)" by simp
  have re: "item_value (snd ?e1)
      (APIResponse (fst ?e1) 408 ''Request timeout'' '''' (VStr '''') (VMap [])) =
      Some (APIResponse ''K1'' 408 ''Request timeout'' '''' (VStr '''') (VMap []))"
    by simp
  note l = clearExpired_loop_connecting [OF cn x re, of "[?e2]"]
  have ce: "clearExpired 150000 ?c = clearExpired_loop 150000 [?e1, ?e2] ?c"
    by (simp only: clearExpired_def cc)
  from l have g1: "fst (clearExpired 150000 ?c) = Some NotOpen"
    unfolding ce by blast
  from l have "server_cache (snd (clearExpired 150000 ?c)) = server_cache ?c"
    unfolding ce by blast
  then have g2: "map fst (cache (server_cache (snd (clearExpired 150000 ?c)))) = [''K1'', ''K2'']"
    by (simp add: cc)
  from l have ee: "effects (snd (clearExpired 150000 ?c)) =
      effects ?c @ sweep_effects 150000 (bin_first ?c) ?e1"
    unfolding ce by blast
  have a: "calls (effects ?c) = []"
    by (simp add: ef calls_def)
  have b: "calls (sweep_effects 150000 (bin_first ?c) ?e1) =
      [(\<lambda>r. Some r, APIResponse ''K1'' 408 ''Request timeout'' '''' (VStr '''') (VMap []))]"
    by (simp add: sweep_effects_def calls_delivery)
  have "calls (effects ?c @ sweep_effects 150000 (bin_first ?c) ?e1) =
      [(\<lambda>r. Some r, APIResponse ''K1'' 408 ''Request timeout'' '''' (VStr '''') (VMap []))]"
    by (simp only: calls_append a b append_Nil)
  then have g3: "calls (effects (snd (clearExpired 150000 ?c))) =
      [(\<lambda>r. Some r, APIResponse ''K1'' 408 ''Request timeout'' '''' (VStr '''') (VMap []))]"
    by (simp only: ee)
  from g1 g2 g3 show ?thesis by blast
qed

text \<open>
  C4. Encoding with the text codec and decoding again should give back every field. An
  envelope built with the class constructor holds its \<open>params\<close> in a \<open>Map\<close>, which
  \<open>JSON.stringify\<close> writes as \<open>{}\<close>: the entry \<open>a = 1\<close> below is lost on the way.
\<close>

theorem text_roundtrip_drops_params:
  "handleStr (toJsonStr (APIResponse ''u1'' 200 ''ok'' ''svc.ping'' (VStr ''body'')
      (VMap [(''a'', VNum 1)]))) =
     Some (APIResponse ''u1'' 200 ''ok'' ''svc.ping'' (VStr ''body'') (VObj []))"
  by (simp add: handleStr_def toJsonStr_def string_property_def number_property_def
      any_property_def)

text \<open>
  C5. After \<open>addNode\<close> has bound \<open>h\<close> at \<open>a.b.c\<close>, that key should resolve to \<open>h\<close>. In
  the client that imports \<open>RPCNode\<close> from \<open>./type\<close>, \<open>addNode\<close> on a new client ends
  with the \<open>ReferenceError\<close> of \<open>RPCNode.create\<close> at the first node it has to create: the
  client is as it was and \<open>a.b.c\<close> resolves to no handler. In the single-file copy,
  whose \<open>create\<close> names the class \<open>RPCNode\<close>, the key resolves to \<open>h\<close> in any trie.
\<close>

theorem addNode_create_throws:
  "addNode ''a.b.c'' (Some h) (constructor ssl url token bin) =
     (Some (ReferenceError ''RPCRouterNode''), constructor ssl url token bin)
   \<and> lookup (root (snd (addNode ''a.b.c'' (Some h) (constructor ssl url token bin)))) ''a.b.c'' =
       None
   \<and> lookup (root (snd (addNode_part_000 ''a.b.c'' (Some h) c))) ''a.b.c'' = Some h"
proof -
  have r: "root (constructor ssl url token bin) = RPCNode [] '''' None"
    by (rule root_constructor)
  have "addNode_loop create (split_dot ''a.b.c'') h (root (constructor ssl url token bin)) =
      (Some (ReferenceError ''RPCRouterNode''), root (constructor ssl url token bin))"
    by (simp add: r create_def)
  then have g1: "addNode ''a.b.c'' (Some h) (constructor ssl url token bin) =
     (Some (ReferenceError ''RPCRouterNode''), constructor ssl url token bin)"
    by (simp add: addNode_def addNode_with_def)
  have g2: "lookup (root (snd (addNode ''a.b.c'' (Some h) (constructor ssl url token bin))))
      ''a.b.c'' = None"
    by (simp add: g1 r lookup_def)
  have g3: "lookup (root (snd (addNode_part_000 ''a.b.c'' (Some h) c))) ''a.b.c'' = Some h"
    by (rule addNode_part_000_lookup) simp
  from g1 g2 g3 show ?thesis by blast
qed

text \<open>
  C6. When \<open>a.b.c\<close> can be reached, it cannot be reached after \<open>removeNode\<close> of
  \<open>a.b\<close>; nor can \<open>a.b\<close> or any path below it, while every path that does not pass
  through \<open>a.b\<close> reaches a node as before, with the handler it had. \<open>removeNode\<close> of a
  non-empty key with a missing segment returns the client as it was.
\<close>

theorem removeNode_detaches_subtree:
  "(handle_loop (root c) (split_dot ''a.b.c'') \<noteq> None \<longrightarrow>
      handle_loop (root (removeNode ''a.b'' c)) (split_dot ''a.b.c'') = None)
   \<and> (\<forall>ps. prefix (split_dot ''a.b'') ps \<longrightarrow>
         handle_loop (root (removeNode ''a.b'' c)) ps = None)
   \<and> (\<forall>ps. \<not> prefix (split_dot ''a.b'') ps \<longrightarrow>
         map_option rpcServer (handle_loop (root (removeNode ''a.b'' c)) ps) =
         map_option rpcServer (handle_loop (root c) ps))
   \<and> (k \<noteq> '''' \<and> handle_loop (root c) (split_dot k) = None \<longrightarrow> removeNode k c = c)"
proof -
  let ?ks = "split_dot ''a.b''"
  have ne: "?ks \<noteq> []" by (rule split_dot_not_Nil)
  have r: "root (removeNode ''a.b'' c) =
      (case removeNode_loop (root c) ?ks of None \<Rightarrow> root c | Some r \<Rightarrow> r)"
    by (rule root_removeNode) simp
  have gone: "handle_loop (root (removeNode ''a.b'' c)) ps = None" if pre: "prefix ?ks ps" for ps
  proof (cases "removeNode_loop (root c) ?ks")
    case None
    with removeNode_loop_None [OF ne, of "root c"] have "handle_loop (root c) ?ks = None"
      by simp
    from handle_loop_prefix_None [OF this pre] r None show ?thesis by simp
  next
    case (Some t')
    from removeNode_loop_prefix [OF Some ne pre] r Some show ?thesis by simp
  qed
  have kept: "map_option rpcServer (handle_loop (root (removeNode ''a.b'' c)) ps) =
      map_option rpcServer (handle_loop (root c) ps)" if np: "\<not> prefix ?ks ps" for ps
  proof (cases "removeNode_loop (root c) ?ks")
    case None
    with r show ?thesis by simp
  next
    case (Some t')
    from removeNode_loop_other [OF Some ne np] r Some show ?thesis by simp
  qed
  have "prefix ?ks (split_dot ''a.b.c'')" by simp
  from gone [OF this] have abc: "handle_loop (root (removeNode ''a.b'' c)) (split_dot ''a.b.c'') = None" .
  from abc gone kept removeNode_missing [of k c] show ?thesis by blast
qed

theorem removeNode_detaches_subtree_witness:
  "handle_loop (root (snd (addNode_part_000 ''a.b.c'' (Some (\<lambda>r. None)) (constructor False ''host'' '''' False))))
      (split_dot ''a.b.c'') \<noteq> None
   \<and> handle_loop (root (removeNode ''a.b''
        (snd (addNode_part_000 ''a.b.c'' (Some (\<lambda>r. None)) (constructor False ''host'' '''' False)))))
      (split_dot ''a.b.c'') = None
   \<and> prefix (split_dot ''a.b'') [''a'', ''b'', ''z'']
   \<and> handle_loop (root (removeNode ''a.b''
        (snd (addNode_part_000 ''a.b.c'' (Some (\<lambda>r. None)) (constructor False ''host'' '''' False)))))
      [''a'', ''b'', ''z''] = None
   \<and> \<not> prefix (split_dot ''a.b'') [''a'']
   \<and> map_option rpcServer (handle_loop (root (removeNode ''a.b''
        (snd (addNode_part_000 ''a.b.c'' (Some (\<lambda>r. None)) (constructor False ''host'' '''' False))))) [''a''])
      = Some None
   \<and> ''a.z'' \<noteq> ''''
   \<and> handle_loop (root (snd (addNode_part_000 ''a.b.c'' (Some (\<lambda>r. None)) (constructor False ''host'' '''' False))))
        (split_dot ''a.z'') = None
   \<and> removeNode ''a.z'' (snd (addNode_part_000 ''a.b.c'' (Some (\<lambda>r. None)) (constructor False ''host'' '''' False)))
      = snd (addNode_part_000 ''a.b.c'' (Some (\<lambda>r. None)) (constructor False ''host'' '''' False))"
proof -
  let ?c = "snd (addNode_part_000 ''a.b.c'' (Some (\<lambda>r. None)) (constructor False ''host'' '''' False))"
  have rt: "root ?c = RPCNode [(''a'', RPCNode [(''b'', RPCNode [(''c'', RPCNode [] ''c'' (Some (\<lambda>r. None)))]
      ''b'' None)] ''a'' None)] '''' None"
    by (simp add: addNode_part_000_def addNode_with_def root_constructor create_part_000_def
        new_RPCNode_def)
  have h1: "handle_loop (root ?c) (split_dot ''a.b.c'') \<noteq> None" by (simp add: rt)
  have h2: "prefix (split_dot ''a.b'') [''a'', ''b'', ''z'']" by simp
  have h3: "\<not> prefix (split_dot ''a.b'') [''a'']" by simp
  have h4: "''a.z'' \<noteq> '''' \<and> handle_loop (root ?c) (split_dot ''a.z'') = None" by (simp add: rt)
  have old: "map_option rpcServer (handle_loop (root ?c) [''a'']) = Some None" by (simp add: rt)
  note t = removeNode_detaches_subtree [of ?c "''a.z''"]
  from t h1 have g1: "handle_loop (root (removeNode ''a.b'' ?c)) (split_dot ''a.b.c'') = None" by blast
  from t h2 have g2: "handle_loop (root (removeNode ''a.b'' ?c)) [''a'', ''b'', ''z''] = None" by blast
  from t h3 have "map_option rpcServer (handle_loop (root (removeNode ''a.b'' ?c)) [''a'']) =
      map_option rpcServer (handle_loop (root ?c) [''a''])" by blast
  with old have g3: "map_option rpcServer (handle_loop (root (removeNode ''a.b'' ?c)) [''a'']) = Some None"
    by simp
  from t h4 have g4: "removeNode ''a.z'' ?c = ?c" by blast
  from h1 g1 h2 g2 h3 g3 h4 g4 show ?thesis by blast
qed

text \<open>
  C7. When the node \<open>x\<close> exists and has no child \<open>y\<close>, dispatching an envelope with
  the key \<open>x.y\<close> logs the missing node and does nothing else: it returns without an
  exception, no handler is invoked, nothing is sent, and the trie and the registry are
  as before.
\<close>

theorem handle_missing_child:
  "key data = ''x.y'' \<Longrightarrow> handle_loop (root c) [''x''] = Some n \<Longrightarrow>
   map_of (children n) ''y'' = None \<Longrightarrow>
   handle data now c =
     (None, c\<lparr>effects := effects c @ [ConsoleError ''SimpleRPC: No such node x.y'']\<rparr>)
   \<and> root (snd (handle data now c)) = root c
   \<and> server_cache (snd (handle data now c)) = server_cache c"
proof -
  assume k: "key data = ''x.y''" and x: "handle_loop (root c) [''x''] = Some n"
    and y: "map_of (children n) ''y'' = None"
  from x obtain child where c: "map_of (children (root c)) ''x'' = Some child"
    by (auto split: option.splits)
  with x have "child = n" by simp
  with c y have "handle_loop (root c) [''x'', ''y''] = None" by simp
  then have "handle_loop (root c) (split_dot (key data)) = None" by (simp add: k)
  moreover have "key data \<noteq> ''''" by (simp add: k)
  ultimately have "handle data now c =
      (None, console_error (''SimpleRPC: No such node '' @ key data) c)"
    by (rule handle_no_node [rotated])
  then show ?thesis by (simp add: k console_error_def)
qed

theorem handle_missing_child_witness:
  "key (APIResponse ''u1'' 200 '''' ''x.y'' (VStr '''') (VMap [])) = ''x.y''
   \<and> handle_loop (root (snd (addNode_part_000 ''x'' (Some (\<lambda>r. Some r))
         (constructor False ''host'' '''' False)))) [''x'']
       = Some (RPCNode [] ''x'' (Some (\<lambda>r. Some r)))
   \<and> map_of (children (RPCNode [] ''x'' (Some (\<lambda>r. Some r)))) ''y'' = None
   \<and> fst (handle (APIResponse ''u1'' 200 '''' ''x.y'' (VStr '''') (VMap [])) 5
        (snd (addNode_part_000 ''x'' (Some (\<lambda>r. Some r))
           (constructor False ''host'' '''' False)))) = None
   \<and> effects (snd (handle (APIResponse ''u1'' 200 '''' ''x.y'' (VStr '''') (VMap [])) 5
        (snd (addNode_part_000 ''x'' (Some (\<lambda>r. Some r))
           (constructor False ''host'' '''' False)))))
      = [WsNew ''wss://host?token='', ConsoleError ''SimpleRPC: No such node x.y'']"
proof -
  let ?c = "snd (addNode_part_000 ''x'' (Some (\<lambda>r. Some r)) (constructor False ''host'' '''' False))"
  let ?d = "APIResponse ''u1'' 200 '''' ''x.y'' (VStr '''') (VMap [])"
  let ?n = "RPCNode [] ''x'' (Some (\<lambda>r. Some r))"
  have h1: "key ?d = ''x.y''" by simp
  have h2: "handle_loop (root ?c) [''x''] = Some ?n"
    by (simp add: addNode_part_000_def addNode_with_def root_constructor create_part_000_def
        new_RPCNode_def)
  have h3: "map_of (children ?n) ''y'' = None" by simp
  have e: "effects ?c = [WsNew ''wss://host?token='']"
    by (simp add: addNode_part_000_def addNode_with_def case_prod_beta constructor_def
        websocket_address_def)
  from handle_missing_child [OF h1 h2 h3, of 5]
  have "handle ?d 5 ?c =
      (None, ?c\<lparr>effects := effects ?c @ [ConsoleError ''SimpleRPC: No such node x.y'']\<rparr>)"
    by blast
  then have "fst (handle ?d 5 ?c) = None"
    "effects (snd (handle ?d 5 ?c)) = effects ?c @ [ConsoleError ''SimpleRPC: No such node x.y'']"
    by simp_all
  with e h1 h2 h3 show ?thesis by simp
qed

text \<open>
  C8. With the secure flag set and a token given, the address the constructor opens has
  the scheme \<open>ws\<close> and no token; with the flag clear and no token it has the scheme
  \<open>wss\<close> and an empty \<open>token\<close> parameter.
\<close>

theorem constructor_address_inverted:
  "effects (constructor True ''example.com'' ''secret'' False) = [WsNew ''ws://example.com'']
   \<and> effects (constructor False ''example.com'' '''' False) = [WsNew ''wss://example.com?token='']"
  by (simp add: constructor_def websocket_address_def)

text \<open>
  C9. When a non-empty key resolves to a node that has no handler, dispatching returns
  without an exception and leaves the client as it was: no handler is invoked, nothing
  is sent and nothing is logged.
\<close>

theorem handle_unbound_node:
  "key data \<noteq> '''' \<Longrightarrow> handle_loop (root c) (split_dot (key data)) = Some node \<Longrightarrow>
   rpcServer node = None \<Longrightarrow> handle data now c = (None, c)"
  by (simp add: handle_def)

theorem handle_unbound_node_witness:
  "key (APIResponse ''u1'' 200 '''' ''a.b'' (VStr '''') (VMap [])) \<noteq> ''''
   \<and> handle_loop (root (snd (addNode_part_000 ''a.b.c'' (Some (\<lambda>r. Some r))
          (constructor False ''host'' '''' False))))
        (split_dot (key (APIResponse ''u1'' 200 '''' ''a.b'' (VStr '''') (VMap []))))
       = Some (RPCNode [(''c'', RPCNode [] ''c'' (Some (\<lambda>r. Some r)))] ''b'' None)
   \<and> rpcServer (RPCNode [(''c'', RPCNode [] ''c'' (Some (\<lambda>r. Some r)))] ''b'' None) = None
   \<and> handle (APIResponse ''u1'' 200 '''' ''a.b'' (VStr '''') (VMap [])) 5
        (snd (addNode_part_000 ''a.b.c'' (Some (\<lambda>r. Some r))
          (constructor False ''host'' '''' False)))
      = (None, snd (addNode_part_000 ''a.b.c'' (Some (\<lambda>r. Some r))
          (constructor False ''host'' '''' False)))"
proof -
  let ?c = "snd (addNode_part_000 ''a.b.c'' (Some (\<lambda>r. Some r))
      (constructor False ''host'' '''' False))"
  let ?d = "APIResponse ''u1'' 200 '''' ''a.b'' (VStr '''') (VMap [])"
  let ?n = "RPCNode [(''c'', RPCNode [] ''c'' (Some (\<lambda>r. Some r)))] ''b'' None"
  have h1: "key ?d \<noteq> ''''" by simp
  have h2: "handle_loop (root ?c) (split_dot (key ?d)) = Some ?n"
    by (simp add: addNode_part_000_def addNode_with_def root_constructor create_part_000_def
        new_RPCNode_def)
  have h3: "rpcServer ?n = None" by simp
  from handle_unbound_node [OF h1 h2 h3, of 5] h1 h2 h3 show ?thesis by blast
qed

text \<open>
  C10. For an envelope with the empty key, the root handler never returns an envelope:
  it returns \<open>null\<close>, or ends with the exception of a \<open>send\<close> on a socket that is still
  connecting; once the socket has left that state it always returns \<open>null\<close>. \<open>handle\<close>
  does what the root handler does and nothing more. The root handler invokes the live
  registry entry of the identifier, if there is one, and sends the result of that
  handler itself; so a dispatch hands at most one frame to the socket.
\<close>

theorem root_adapter_returns_absent:
  "key req = '''' \<Longrightarrow>
   fst (root_rpcServer_handle req now c) =
     (case fst (TimedCache_get (UUID req) now (server_cache c)) of
        None \<Rightarrow> Inr None
      | Some server \<Rightarrow>
          (case server req of
             None \<Rightarrow> Inr None
           | Some re \<Rightarrow>
               if readyState (websocket_client c) = CONNECTING then Inl NotOpen else Inr None))
   \<and> (\<forall>re. fst (root_rpcServer_handle req now c) \<noteq> Inr (Some re))
   \<and> (readyState (websocket_client c) \<noteq> CONNECTING \<longrightarrow>
        fst (root_rpcServer_handle req now c) = Inr None \<and> fst (handle req now c) = None)
   \<and> handle req now c =
       (case fst (root_rpcServer_handle req now c) of Inl x \<Rightarrow> Some x | Inr re \<Rightarrow> None,
        snd (root_rpcServer_handle req now c))
   \<and> effects (snd (handle req now c)) =
       effects c @ (case fst (TimedCache_get (UUID req) now (server_cache c)) of
                      None \<Rightarrow> [] | Some server \<Rightarrow> delivery (bin_first c) server req)
   \<and> length (sends (effects (snd (handle req now c)))) \<le> length (sends (effects c)) + 1"
proof -
  assume k: "key req = ''''"
  note f = root_rpcServer_handle_fst [of req now c]
  have never: "fst (root_rpcServer_handle req now c) \<noteq> Inr (Some re)" for re
    unfolding f by (simp split: option.splits)
  have h: "handle req now c =
       (case fst (root_rpcServer_handle req now c) of Inl x \<Rightarrow> Some x | Inr re \<Rightarrow> None,
        snd (root_rpcServer_handle req now c))"
    by (rule handle_root [OF k])
  have opened: "fst (root_rpcServer_handle req now c) = Inr None \<and> fst (handle req now c) = None"
    if "readyState (websocket_client c) \<noteq> CONNECTING"
  proof -
    from that have "fst (root_rpcServer_handle req now c) = Inr None"
      unfolding f by (simp split: option.splits)
    then show ?thesis by (simp add: h)
  qed
  have e: "effects (snd (handle req now c)) =
       effects c @ (case fst (TimedCache_get (UUID req) now (server_cache c)) of
                      None \<Rightarrow> [] | Some server \<Rightarrow> delivery (bin_first c) server req)"
    by (simp add: h root_rpcServer_handle_effects)
  have "length (sends (case fst (TimedCache_get (UUID req) now (server_cache c)) of
                      None \<Rightarrow> [] | Some server \<Rightarrow> delivery (bin_first c) server req)) \<le> 1"
  proof (cases "fst (TimedCache_get (UUID req) now (server_cache c))")
    case None
    then show ?thesis by (simp add: sends_def)
  next
    case (Some server)
    with sends_delivery [of "bin_first c" server req] show ?thesis by simp
  qed
  with e have n: "length (sends (effects (snd (handle req now c)))) \<le>
      length (sends (effects c)) + 1"
    by (simp add: sends_append)
  from f never opened h e n show ?thesis by blast
qed

theorem root_adapter_returns_absent_witness:
  "key (APIResponse ''X'' 200 ''ok'' '''' (VStr '''') (VMap [])) = ''''
   \<and> readyState (websocket_client (addSendCallBack ''X'' (\<lambda>r. Some r) 1000
          (socket_opens (constructor False ''host'' '''' False)))) \<noteq> CONNECTING
   \<and> fst (root_rpcServer_handle (APIResponse ''X'' 200 ''ok'' '''' (VStr '''') (VMap [])) 2000
          (addSendCallBack ''X'' (\<lambda>r. Some r) 1000
             (socket_opens (constructor False ''host'' '''' False)))) = Inr None
   \<and> fst (handle (APIResponse ''X'' 200 ''ok'' '''' (VStr '''') (VMap [])) 2000
          (addSendCallBack ''X'' (\<lambda>r. Some r) 1000
             (socket_opens (constructor False ''host'' '''' False)))) = None
   \<and> effects (snd (handle (APIResponse ''X'' 200 ''ok'' '''' (VStr '''') (VMap [])) 2000
          (addSendCallBack ''X'' (\<lambda>r. Some r) 1000
             (socket_opens (constructor False ''host'' '''' False))))) =
       [WsNew ''wss://host?token='',
        Called (\<lambda>r. Some r) (APIResponse ''X'' 200 ''ok'' '''' (VStr '''') (VMap [])),
        WsSend (frame_of False (APIResponse ''X'' 200 ''ok'' '''' (VStr '''') (VMap [])))]"
proof -
  let ?c = "addSendCallBack ''X'' (\<lambda>r. Some r) 1000
      (socket_opens (constructor False ''host'' '''' False))"
  let ?r = "APIResponse ''X'' 200 ''ok'' '''' (VStr '''') (VMap [])"
  have h: "key ?r = ''''" by simp
  have o: "readyState (websocket_client ?c) \<noteq> CONNECTING"
    by (simp add: addSendCallBack_def socket_opens_def on_open_def constructor_def)
  have g: "fst (TimedCache_get (UUID ?r) 2000 (server_cache ?c)) = Some (\<lambda>r. Some r)"
    by (simp add: addSendCallBack_def socket_opens_def on_open_def constructor_def
        new_TimedCache_def TimedCache_set_def TimedCache_get_def)
  have e: "effects ?c = [WsNew ''wss://host?token='']" "bin_first ?c = False"
    by (simp_all add: addSendCallBack_def socket_opens_def on_open_def constructor_def
        websocket_address_def)
  note t = root_adapter_returns_absent [OF h, of 2000 ?c]
  from t o have g1: "fst (root_rpcServer_handle ?r 2000 ?c) = Inr None" by blast
  from t o have g3: "fst (handle ?r 2000 ?c) = None" by blast
  from t have "effects (snd (handle ?r 2000 ?c)) =
       effects ?c @ (case fst (TimedCache_get (UUID ?r) 2000 (server_cache ?c)) of
                      None \<Rightarrow> [] | Some server \<Rightarrow> delivery (bin_first ?c) server ?r)"
    by blast
  with g e have g2: "effects (snd (handle ?r 2000 ?c)) =
       [WsNew ''wss://host?token='', Called (\<lambda>r. Some r) ?r, WsSend (frame_of False ?r)]"
    by (simp add: delivery_def)
  from h o g1 g3 g2 show ?thesis by blast
qed

end
